theory Spec2Isabelle
  imports Main "HOL-Library.Word"
begin

unbundle bit_operations_syntax

section \<open>Topics and generations (topic\_monitor.h)\<close>

text \<open>
  \<^verbatim>\<open>using generation_t = uint64_t;\<close>
  A generation is an unsigned 64-bit counter; arithmetic on it wraps modulo \<open>2 ^ 64\<close>
  and comparison is unsigned, which is what \<open>64 word\<close> provides.
\<close>

type_synonym generation_t = "64 word"

text \<open>
  \<^verbatim>\<open>constexpr generation_t invalid_generation = std::numeric_limits<generation_t>::max();\<close>
\<close>

definition invalid_generation :: generation_t where
  "invalid_generation = 0xFFFFFFFFFFFFFFFF"

text \<open>
  \<^verbatim>\<open>enum class topic_t : uint8_t { sighupint, sigchld, internal_exit };\<close>
  An enumeration with a fixed underlying type can hold every value of that type, so a
  \<open>topic_t\<close> is a byte and the three enumerators are the bytes 0, 1 and 2. The record
  below uses the plain names for its fields, so the enumerators carry the prefix
  \<open>topic_\<close>.
\<close>

type_synonym topic_t = "8 word"

definition topic_sighupint :: topic_t where
  "topic_sighupint = 0"

definition topic_sigchld :: topic_t where
  "topic_sigchld = 1"

definition topic_internal_exit :: topic_t where
  "topic_internal_exit = 2"

text \<open>\<^verbatim>\<open>all_topics()\<close>: the three enumerators in declaration order.\<close>

definition all_topics :: "topic_t list" where
  "all_topics = [topic_sighupint, topic_sigchld, topic_internal_exit]"

text \<open>
  The ways the modelled code stops without a result: \<^verbatim>\<open>DIE("Unreachable")\<close> terminates
  the process; a shift of a 32-bit \<^verbatim>\<open>int\<close> by 32 or more has no defined result in C++.
\<close>

datatype error = Die_Unreachable | Undefined_Shift

section \<open>generation\_list\_t\<close>

text \<open>
  \<^verbatim>\<open>class generation_list_t\<close>: one generation per topic, as three public fields.
\<close>

record generation_list_t =
  sighupint :: generation_t
  sigchld :: generation_t
  internal_exit :: generation_t

text \<open>
  \<^verbatim>\<open>generation_list_t() = default;\<close> with the member initialisers \<^verbatim>\<open>{0}\<close>.
\<close>

definition generation_list_default :: generation_list_t where
  "generation_list_default = \<lparr>sighupint = 0, sigchld = 0, internal_exit = 0\<rparr>"

text \<open>
  The private constructor
  \<^verbatim>\<open>generation_list_t(generation_t sighupint, generation_t sigchld, generation_t internal_exit)\<close>.
\<close>

definition generation_list_of :: "generation_t \<Rightarrow> generation_t \<Rightarrow> generation_t \<Rightarrow> generation_list_t" where
  "generation_list_of a b c = \<lparr>sighupint = a, sigchld = b, internal_exit = c\<rparr>"

text \<open>
  The non-const overload \<^verbatim>\<open>generation_t &at(topic_t topic)\<close> returns a reference to one of
  the three fields. A reference into a list is modelled by the name of the field it
  designates; \<open>deref\<close> reads through it and \<open>assign\<close> writes through it. The switch
  lists \<^verbatim>\<open>sigchld\<close> first, then \<^verbatim>\<open>sighupint\<close>, then \<^verbatim>\<open>internal_exit\<close>; falling out of
  it reaches \<^verbatim>\<open>DIE\<close>.
\<close>

datatype field_ref = Ref_sighupint | Ref_sigchld | Ref_internal_exit

fun deref :: "generation_list_t \<Rightarrow> field_ref \<Rightarrow> generation_t" where
  "deref g Ref_sighupint = sighupint g"
| "deref g Ref_sigchld = sigchld g"
| "deref g Ref_internal_exit = internal_exit g"

fun assign :: "generation_list_t \<Rightarrow> field_ref \<Rightarrow> generation_t \<Rightarrow> generation_list_t" where
  "assign g Ref_sighupint v = g\<lparr>sighupint := v\<rparr>"
| "assign g Ref_sigchld v = g\<lparr>sigchld := v\<rparr>"
| "assign g Ref_internal_exit v = g\<lparr>internal_exit := v\<rparr>"

definition at_ref :: "topic_t \<Rightarrow> error + field_ref" where
  "at_ref topic =
     (if topic = topic_sigchld then Inr Ref_sigchld
      else if topic = topic_sighupint then Inr Ref_sighupint
      else if topic = topic_internal_exit then Inr Ref_internal_exit
      else Inl Die_Unreachable)"

text \<open>
  The const overload \<^verbatim>\<open>generation_t at(topic_t topic) const\<close> returns the value; its switch
  lists the enumerators in declaration order.
\<close>

definition at :: "generation_list_t \<Rightarrow> topic_t \<Rightarrow> error + generation_t" where
  "at g topic =
     (if topic = topic_sighupint then Inr (sighupint g)
      else if topic = topic_sigchld then Inr (sigchld g)
      else if topic = topic_internal_exit then Inr (internal_exit g)
      else Inl Die_Unreachable)"

text \<open>\<^verbatim>\<open>as_array()\<close>: the three fields in declaration order.\<close>

definition as_array :: "generation_list_t \<Rightarrow> generation_t list" where
  "as_array g = [sighupint g, sigchld g, internal_exit g]"

text \<open>
  \<^verbatim>\<open>set_min_from(topic, other)\<close> is a member function of a non-const object taking a const
  reference, so receiver and argument may be the same object. Objects live in a store,
  addressed by natural numbers; the function takes the addresses of the receiver and of
  \<^verbatim>\<open>other\<close> and returns the updated store. \<^verbatim>\<open>this->at(topic)\<close> resolves to the non-const
  overload, \<^verbatim>\<open>other.at(topic)\<close> to the const one; each of the four calls is a step of the
  model.
\<close>

type_synonym store = "nat \<Rightarrow> generation_list_t"

definition set_min_from :: "store \<Rightarrow> nat \<Rightarrow> topic_t \<Rightarrow> nat \<Rightarrow> error + store" where
  "set_min_from s this topic other =
     (case at_ref topic of
        Inl e \<Rightarrow> Inl e
      | Inr r \<Rightarrow>
         (case at (s other) topic of
            Inl e \<Rightarrow> Inl e
          | Inr ov \<Rightarrow>
             if deref (s this) r > ov then
               (case at_ref topic of
                  Inl e \<Rightarrow> Inl e
                | Inr r' \<Rightarrow>
                   (case at (s other) topic of
                      Inl e \<Rightarrow> Inl e
                    | Inr ov' \<Rightarrow> Inr (s(this := assign (s this) r' ov'))))
             else Inr s))"

text \<open>\<^verbatim>\<open>is_valid(topic)\<close>: \<^verbatim>\<open>this->at(topic) != invalid_generation\<close>, through the const overload.\<close>

definition is_valid :: "generation_list_t \<Rightarrow> topic_t \<Rightarrow> error + bool" where
  "is_valid g topic =
     (case at g topic of
        Inl e \<Rightarrow> Inl e
      | Inr v \<Rightarrow> Inr (v \<noteq> invalid_generation))"

text \<open>
  \<^verbatim>\<open>any_valid()\<close>: the loop over \<^verbatim>\<open>as_array()\<close> that sets the flag \<^verbatim>\<open>valid\<close>, started at
  \<^verbatim>\<open>false\<close>.
\<close>

fun any_valid_loop :: "generation_t list \<Rightarrow> bool \<Rightarrow> bool" where
  "any_valid_loop [] valid = valid"
| "any_valid_loop (gen # gens) valid =
     any_valid_loop gens (if gen \<noteq> invalid_generation then True else valid)"

definition any_valid :: "generation_list_t \<Rightarrow> bool" where
  "any_valid g = any_valid_loop (as_array g) False"

text \<open>\<^verbatim>\<open>operator==\<close> and \<^verbatim>\<open>operator!=\<close>.\<close>

definition equals :: "generation_list_t \<Rightarrow> generation_list_t \<Rightarrow> bool" where
  "equals lhs rhs \<longleftrightarrow>
     sighupint lhs = sighupint rhs \<and> sigchld lhs = sigchld rhs \<and>
     internal_exit lhs = internal_exit rhs"

definition not_equals :: "generation_list_t \<Rightarrow> generation_list_t \<Rightarrow> bool" where
  "not_equals lhs rhs \<longleftrightarrow> \<not> equals lhs rhs"

text \<open>\<^verbatim>\<open>invalids()\<close>: the list holding the sentinel for every topic.\<close>

definition invalids :: generation_list_t where
  "invalids = generation_list_of invalid_generation invalid_generation invalid_generation"

section \<open>topic\_monitor\_t\<close>

text \<open>\<^verbatim>\<open>using topic_bitmask_t = uint8_t;\<close>\<close>

type_synonym topic_bitmask_t = "8 word"

text \<open>
  \<^verbatim>\<open>static topic_bitmask_t topic_to_bit(topic_t t) { return 1 << static_cast<topic_bitmask_t>(t); }\<close>
  The literal \<^verbatim>\<open>1\<close> is an \<^verbatim>\<open>int\<close> and the shift count is promoted to \<^verbatim>\<open>int\<close>, so the shift
  happens at 32 bits and the result is then narrowed to the 8-bit return type. A count
  of 32 or more is undefined.
\<close>

definition topic_to_bit :: "topic_t \<Rightarrow> error + topic_bitmask_t" where
  "topic_to_bit t =
     (if unat t < 32 then Inr (ucast (push_bit (unat t) (1 :: 32 word)))
      else Inl Undefined_Shift)"

text \<open>
  \<^verbatim>\<open>struct data_t\<close>, the part of the monitor behind the lock, and the monitor itself. Of
  the monitor's members the model keeps the locked data (\<^verbatim>\<open>data_\<close>) and the atomic bitmask
  of pending updates (\<^verbatim>\<open>pending_updates_\<close>), named here without the trailing underscore;
  the pipes and the condition variable carry no generation.
\<close>

record data_t =
  current :: generation_list_t
  has_reader :: bool

record topic_monitor_t =
  data :: data_t
  pending_updates :: topic_bitmask_t



text \<open>
  Modelled from the spec: the pass over the kinds inside
  \<^verbatim>\<open>topic_monitor_t::updated_gens_in_data\<close>, whose body the header only declares.
  Section 4.3: "For each set bit, increments the authoritative Generation Vector's
  counter for that kind by exactly one". A kind's bit is the one \<^verbatim>\<open>topic_to_bit\<close> gives it;
  the counter is incremented in place, through the reference that the non-const \<^verbatim>\<open>at\<close>
  returns, and the increment is that of \<^verbatim>\<open>uint64_t\<close>.
\<close>

fun apply_updates :: "topic_bitmask_t \<Rightarrow> topic_t list \<Rightarrow> generation_list_t \<Rightarrow> error + generation_list_t" where
  "apply_updates bits [] gens = Inr gens"
| "apply_updates bits (topic # topics) gens =
     (case topic_to_bit topic of
        Inl e \<Rightarrow> Inl e
      | Inr b \<Rightarrow>
         if bits AND b \<noteq> 0 then
           (case at_ref topic of
              Inl e \<Rightarrow> Inl e
            | Inr r \<Rightarrow> apply_updates bits topics (assign gens r (deref gens r + 1)))
         else apply_updates bits topics gens)"

text \<open>
  Modelled from the spec: the body of \<^verbatim>\<open>topic_monitor_t::updated_gens_in_data\<close>, which the
  header only declares. Section 4.3: it "atomically exchanges the Pending-Update Bitmask
  with zero, obtaining the bits set since the last drain", applies them, and "returns a
  copy of the updated authoritative vector". It runs with the lock held; a post that
  arrives after the exchange only sets a bit that this call no longer reads, so the call
  is one atomic step of the monitor.
\<close>

definition updated_gens_in_data :: "topic_monitor_t \<Rightarrow> error + generation_list_t \<times> topic_monitor_t" where
  "updated_gens_in_data m =
     (let changed_topic_bits = pending_updates m
      in case apply_updates changed_topic_bits all_topics (current (data m)) of
           Inl e \<Rightarrow> Inl e
         | Inr gens \<Rightarrow>
             Inr (gens, m\<lparr>data := (data m)\<lparr>current := gens\<rparr>, pending_updates := 0\<rparr>))"

text \<open>
  Modelled from the spec: the body of \<^verbatim>\<open>topic_monitor_t::updated_gens\<close>, which the header
  only declares. Section 4.4: it "acquires the shared-state lock, calls 4.3, releases
  the lock, returns the copy". The lock makes the call one atomic step of the monitor.
\<close>

definition updated_gens :: "topic_monitor_t \<Rightarrow> error + generation_list_t \<times> topic_monitor_t" where
  "updated_gens m = updated_gens_in_data m"

text \<open>\<^verbatim>\<open>generation_list_t current_generations() { return updated_gens(); }\<close>\<close>

definition current_generations :: "topic_monitor_t \<Rightarrow> error + generation_list_t \<times> topic_monitor_t" where
  "current_generations m = updated_gens m"

text \<open>
  \<^verbatim>\<open>generation_t generation_for_topic(topic_t topic) { return current_generations().at(topic); }\<close>
\<close>

definition generation_for_topic :: "topic_monitor_t \<Rightarrow> topic_t \<Rightarrow> error + generation_t \<times> topic_monitor_t" where
  "generation_for_topic m topic =
     (case current_generations m of
        Inl e \<Rightarrow> Inl e
      | Inr (gens, m') \<Rightarrow>
         (case at gens topic of
            Inl e \<Rightarrow> Inl e
          | Inr v \<Rightarrow> Inr (v, m')))"









section \<open>Concrete inputs\<close>

text \<open>Two objects in a store, a list that tracks two of the three topics, a monitor with
  a pending post to \<^verbatim>\<open>sigchld\<close>, and a sequence of events.\<close>

definition example_store :: store where
  "example_store =
     (\<lambda>p. if p = 0 then \<lparr>sighupint = 5, sigchld = 9, internal_exit = 2\<rparr>
          else \<lparr>sighupint = 7, sigchld = 3, internal_exit = 2\<rparr>)"

definition example_list :: generation_list_t where
  "example_list = \<lparr>sighupint = 5, sigchld = 9, internal_exit = invalid_generation\<rparr>"






section \<open>Basic facts\<close>

lemma invalid_generation_minus_one: "invalid_generation = - 1"
  by (simp add: invalid_generation_def)

lemma in_all_topics:
  "t \<in> set all_topics \<longleftrightarrow> t = topic_sighupint \<or> t = topic_sigchld \<or> t = topic_internal_exit"
  by (auto simp: all_topics_def)

lemma topics_distinct:
  "topic_sighupint \<noteq> topic_sigchld" "topic_sighupint \<noteq> topic_internal_exit"
  "topic_sigchld \<noteq> topic_internal_exit" "topic_sigchld \<noteq> topic_sighupint"
  "topic_internal_exit \<noteq> topic_sighupint" "topic_internal_exit \<noteq> topic_sigchld"
  by (simp_all add: topic_sighupint_def topic_sigchld_def topic_internal_exit_def)

lemma at_enumerators:
  "at g topic_sighupint = Inr (sighupint g)"
  "at g topic_sigchld = Inr (sigchld g)"
  "at g topic_internal_exit = Inr (internal_exit g)"
  by (simp_all add: at_def topics_distinct)

lemma at_ref_enumerators:
  "at_ref topic_sighupint = Inr Ref_sighupint"
  "at_ref topic_sigchld = Inr Ref_sigchld"
  "at_ref topic_internal_exit = Inr Ref_internal_exit"
  by (simp_all add: at_ref_def topics_distinct)


lemma at_via_ref: "map_sum id (deref g) (at_ref t) = at g t"
  by (simp add: at_ref_def at_def topics_distinct)

lemma at_of_ref: "at_ref k = Inr r \<Longrightarrow> at g k = Inr (deref g r)"
  using at_via_ref [of g k] by simp

lemma deref_assign_same: "deref (assign g r v) r = v"
  by (cases r) simp_all

lemma at_assign_same:
  "at_ref k = Inr r \<Longrightarrow> at (assign g r v) k = Inr v"
  by (cases r) (auto simp: at_ref_def at_def topics_distinct split: if_splits)

lemma at_assign_other:
  "at_ref k = Inr r \<Longrightarrow> j \<noteq> k \<Longrightarrow> at (assign g r v) j = at g j"
  by (cases r) (auto simp: at_ref_def at_def topics_distinct split: if_splits)

lemma equals_iff: "equals lhs rhs \<longleftrightarrow> lhs = rhs"
  by (cases lhs, cases rhs) (simp add: equals_def)

section \<open>The generation list\<close>

subsection \<open>Both overloads of at\<close>

text \<open>
  C3: for each of the three enumerators both overloads of \<^verbatim>\<open>at\<close> return the field of
  that name and do not reach \<^verbatim>\<open>DIE\<close>; either overload reaches \<^verbatim>\<open>DIE\<close> exactly when
  the argument is none of the three enumerators; so on an enumerator both overloads
  return a result.
\<close>

theorem at_total_on_enumeration:
  "at g topic_sighupint = Inr (sighupint g) \<and>
   at g topic_sigchld = Inr (sigchld g) \<and>
   at g topic_internal_exit = Inr (internal_exit g) \<and>
   (\<exists>r. at_ref topic_sighupint = Inr r \<and> deref g r = sighupint g) \<and>
   (\<exists>r. at_ref topic_sigchld = Inr r \<and> deref g r = sigchld g) \<and>
   (\<exists>r. at_ref topic_internal_exit = Inr r \<and> deref g r = internal_exit g) \<and>
   (at g t = Inl Die_Unreachable \<longleftrightarrow> t \<notin> set all_topics) \<and>
   (at_ref t = Inl Die_Unreachable \<longleftrightarrow> t \<notin> set all_topics) \<and>
   (t \<in> set all_topics \<longrightarrow> (\<exists>v r. at g t = Inr v \<and> at_ref t = Inr r))"
proof -
  have "at g t = Inl Die_Unreachable \<longleftrightarrow> t \<notin> set all_topics"
    by (auto simp: at_def in_all_topics)
  moreover have "at_ref t = Inl Die_Unreachable \<longleftrightarrow> t \<notin> set all_topics"
    by (auto simp: at_ref_def in_all_topics)
  moreover have "t \<in> set all_topics \<longrightarrow> (\<exists>v r. at g t = Inr v \<and> at_ref t = Inr r)"
    by (auto simp: in_all_topics at_enumerators at_ref_enumerators)
  ultimately show ?thesis
    by (simp add: at_enumerators at_ref_enumerators)
qed

theorem at_total_on_enumeration_witness:
  "topic_sigchld \<in> set all_topics \<and>
   at example_list topic_sigchld = Inr 9 \<and>
   at_ref topic_sigchld = Inr Ref_sigchld \<and>
   3 \<notin> set all_topics \<and>
   at example_list 3 = Inl Die_Unreachable \<and>
   at_ref 3 = Inl Die_Unreachable"
proof -
  have k: "topic_sigchld \<in> set all_topics"
    by (simp add: all_topics_def)
  have n: "(3 :: topic_t) \<notin> set all_topics"
    by (simp add: all_topics_def topic_sighupint_def topic_sigchld_def topic_internal_exit_def)
  have "at example_list topic_sigchld = Inr 9"
    using at_total_on_enumeration [of example_list topic_sigchld]
    by (simp add: example_list_def)
  moreover have "at_ref topic_sigchld = Inr Ref_sigchld"
    using at_total_on_enumeration [of example_list topic_sigchld] k
    by (auto simp: at_ref_enumerators)
  moreover have "at example_list 3 = Inl Die_Unreachable" "at_ref 3 = Inl Die_Unreachable"
    using at_total_on_enumeration [of example_list 3] n by simp_all
  ultimately show ?thesis
    using k n by simp
qed

text \<open>
  C9: the two overloads list their cases in different orders and still agree: for every
  topic value, reading through the reference that the non-const overload returns gives
  what the const overload returns (and both stop on the same values); in particular,
  for each of the three enumerators the non-const overload returns a reference and the
  const overload returns the value of the field that reference designates.
\<close>

theorem at_overloads_agree:
  "map_sum id (deref g) (at_ref t) = at g t \<and>
   (\<forall>k \<in> set all_topics. \<exists>r. at_ref k = Inr r \<and> at g k = Inr (deref g r))"
  by (simp add: at_via_ref all_topics_def at_enumerators at_ref_enumerators)

theorem at_overloads_agree_witness:
  "topic_sigchld \<in> set all_topics \<and> at_ref topic_sigchld = Inr Ref_sigchld \<and>
   at example_list topic_sigchld = Inr (deref example_list Ref_sigchld) \<and>
   deref example_list Ref_sigchld = 9"
proof -
  have k: "topic_sigchld \<in> set all_topics"
    by (simp add: all_topics_def)
  have r: "at_ref topic_sigchld = Inr Ref_sigchld"
    by (simp add: at_ref_enumerators)
  have "deref example_list Ref_sigchld = 9"
    by (simp add: example_list_def)
  moreover have "at example_list topic_sigchld = Inr (deref example_list Ref_sigchld)"
    using at_overloads_agree [of example_list topic_sigchld] k r by auto
  ultimately show ?thesis
    using k r by simp
qed

subsection \<open>as\_array\<close>

text \<open>
  C6: for every list \<open>g\<close> and every index \<open>i < 3\<close>, the entry \<open>i\<close> of \<^verbatim>\<open>g.as_array()\<close> is
  \<^verbatim>\<open>g.at(all_topics()[i])\<close>; both sequences have three entries, and \<^verbatim>\<open>all_topics()\<close> is
  sighupint, sigchld, internal\_exit in that order.
\<close>

theorem as_array_in_topic_order:
  assumes "i < 3"
  shows "at g (all_topics ! i) = Inr (as_array g ! i) \<and>
         length (as_array g) = 3 \<and> length all_topics = 3 \<and>
         all_topics = [topic_sighupint, topic_sigchld, topic_internal_exit]"
proof -
  from assms have "i = 0 \<or> i = 1 \<or> i = 2"
    by arith
  then have "at g (all_topics ! i) = Inr (as_array g ! i)"
    by (auto simp: all_topics_def as_array_def at_enumerators)
  then show ?thesis
    by (simp add: all_topics_def as_array_def)
qed

theorem as_array_in_topic_order_witness:
  "(1 :: nat) < 3 \<and> all_topics ! 1 = topic_sigchld \<and> as_array example_list ! 1 = 9 \<and>
   at example_list (all_topics ! 1) = Inr 9"
proof -
  have i: "(1 :: nat) < 3"
    by simp
  have "as_array example_list ! 1 = 9"
    by (simp add: as_array_def example_list_def)
  moreover have "all_topics ! 1 = topic_sigchld"
    by (simp add: all_topics_def)
  ultimately show ?thesis
    using as_array_in_topic_order [OF i, of example_list] by simp
qed

subsection \<open>set\_min\_from\<close>

lemma set_min_from_valid:
  assumes "at_ref k = Inr r"
  shows "set_min_from s this k other =
           Inr (if deref (s this) r > deref (s other) r
                then s(this := assign (s this) r (deref (s other) r)) else s)"
  by (simp add: set_min_from_def assms at_of_ref [OF assms])

text \<open>
  C2: for every store, every receiver and argument in it (the same object or not) and
  every topic \<open>k\<close> of the enumeration, \<^verbatim>\<open>set_min_from(k, other)\<close> returns, and afterwards
  the receiver's value at \<open>k\<close> is the minimum of \<open>v\<close>, its value at \<open>k\<close> before the call,
  and the argument's value at \<open>k\<close>.
\<close>

theorem set_min_from_min:
  assumes "k \<in> set all_topics"
  shows "\<exists>s' v ov. at (s this) k = Inr v \<and> at (s other) k = Inr ov \<and>
           set_min_from s this k other = Inr s' \<and> at (s' this) k = Inr (min v ov)"
proof -
  from assms obtain r where r: "at_ref k = Inr r"
    by (auto simp: in_all_topics at_ref_enumerators)
  show ?thesis
    by (auto simp: set_min_from_valid [OF r] at_of_ref [OF r] deref_assign_same min_def)
qed

theorem set_min_from_min_witness:
  "topic_sigchld \<in> set all_topics \<and>
   (\<exists>s'. set_min_from example_store 0 topic_sigchld 1 = Inr s' \<and>
         at (s' 0) topic_sigchld = Inr 3)"
proof -
  have k: "topic_sigchld \<in> set all_topics"
    by (simp add: all_topics_def)
  from set_min_from_min [OF k, of example_store 0 1] show ?thesis
    by (auto simp: k example_store_def at_enumerators)
qed

text \<open>
  C7: for every topic \<open>k\<close> of the enumeration, \<^verbatim>\<open>set_min_from(k, other)\<close> returns and leaves
  the receiver's value unchanged at every topic other than \<open>k\<close>; it leaves the argument
  as it was, and every other object of the store as well.
\<close>

theorem set_min_from_frame:
  assumes "k \<in> set all_topics"
  shows "\<exists>s'. set_min_from s this k other = Inr s' \<and>
           (\<forall>j. j \<noteq> k \<longrightarrow> at (s' this) j = at (s this) j) \<and>
           s' other = s other \<and>
           (\<forall>p. p \<noteq> this \<longrightarrow> s' p = s p)"
proof -
  from assms obtain r where r: "at_ref k = Inr r"
    by (auto simp: in_all_topics at_ref_enumerators)
  show ?thesis
    by (auto simp: set_min_from_valid [OF r] at_assign_other [OF r])
qed

theorem set_min_from_frame_witness:
  "topic_sigchld \<in> set all_topics \<and>
   (\<exists>s'. set_min_from example_store 0 topic_sigchld 1 = Inr s' \<and>
         at (s' 0) topic_sighupint = Inr 5 \<and> at (s' 0) topic_internal_exit = Inr 2 \<and>
         s' 1 = \<lparr>sighupint = 7, sigchld = 3, internal_exit = 2\<rparr>)"
proof -
  have k: "topic_sigchld \<in> set all_topics"
    by (simp add: all_topics_def)
  from set_min_from_frame [OF k, of example_store 0 1] obtain s'
    where s': "set_min_from example_store 0 topic_sigchld 1 = Inr s'"
      and j: "\<And>j. j \<noteq> topic_sigchld \<Longrightarrow> at (s' 0) j = at (example_store 0) j"
      and o: "s' 1 = example_store 1"
    by blast
  have "at (s' 0) topic_sighupint = Inr 5"
    using j [of topic_sighupint] by (simp add: topics_distinct example_store_def at_enumerators)
  moreover have "at (s' 0) topic_internal_exit = Inr 2"
    using j [of topic_internal_exit] by (simp add: topics_distinct example_store_def at_enumerators)
  moreover have "s' 1 = \<lparr>sighupint = 7, sigchld = 3, internal_exit = 2\<rparr>"
    using o by (simp add: example_store_def)
  ultimately show ?thesis
    using k s' by blast
qed

subsection \<open>is\_valid and any\_valid\<close>

text \<open>
  C4: for every list \<open>g\<close> and topic \<open>k\<close> of the enumeration, \<^verbatim>\<open>g.is_valid(k)\<close> returns true
  if and only if \<^verbatim>\<open>g.at(k)\<close> differs from \<^verbatim>\<open>invalid_generation\<close>; that sentinel is
  \<open>2 ^ 64 - 1\<close>, the largest 64-bit unsigned value.
\<close>

theorem is_valid_iff_not_sentinel:
  assumes "k \<in> set all_topics"
  shows "\<exists>v. at g k = Inr v \<and> is_valid g k = Inr (v \<noteq> invalid_generation) \<and>
           (is_valid g k = Inr True \<longleftrightarrow> at g k \<noteq> Inr invalid_generation) \<and>
           unat invalid_generation = 2 ^ 64 - 1 \<and>
           (\<forall>x :: generation_t. x \<le> invalid_generation)"
proof -
  from assms obtain v where v: "at g k = Inr v"
    by (auto simp: in_all_topics at_enumerators)
  have "unat invalid_generation = 2 ^ 64 - 1"
    by (simp add: invalid_generation_def)
  moreover have "\<forall>x :: generation_t. x \<le> invalid_generation"
    by (simp add: invalid_generation_minus_one)
  ultimately show ?thesis
    using v by (simp add: is_valid_def)
qed

theorem is_valid_iff_not_sentinel_witness:
  "topic_sigchld \<in> set all_topics \<and> topic_internal_exit \<in> set all_topics \<and>
   is_valid example_list topic_sigchld = Inr True \<and>
   is_valid example_list topic_internal_exit = Inr False \<and>
   unat invalid_generation = 18446744073709551615"
proof -
  have k: "topic_sigchld \<in> set all_topics" and k': "topic_internal_exit \<in> set all_topics"
    by (simp_all add: all_topics_def)
  have "is_valid example_list topic_sigchld = Inr True"
    using is_valid_iff_not_sentinel [OF k, of example_list]
    by (auto simp: at_enumerators example_list_def invalid_generation_def)
  moreover have "is_valid example_list topic_internal_exit = Inr False"
    using is_valid_iff_not_sentinel [OF k', of example_list]
    by (auto simp: at_enumerators example_list_def)
  moreover have "unat invalid_generation = 18446744073709551615"
    using is_valid_iff_not_sentinel [OF k, of example_list] by auto
  ultimately show ?thesis
    using k k' by simp
qed

lemma any_valid_loop_eq:
  "any_valid_loop gens valid \<longleftrightarrow> valid \<or> (\<exists>gen \<in> set gens. gen \<noteq> invalid_generation)"
  by (induction gens arbitrary: valid) auto

lemma any_valid_fields:
  "any_valid g \<longleftrightarrow>
     sighupint g \<noteq> invalid_generation \<or> sigchld g \<noteq> invalid_generation \<or>
     internal_exit g \<noteq> invalid_generation"
  by (simp add: any_valid_def any_valid_loop_eq as_array_def)

text \<open>
  C5: \<^verbatim>\<open>g.any_valid()\<close> returns true if and only if some topic \<open>k\<close> has
  \<^verbatim>\<open>g.at(k) != invalid_generation\<close>; it returns false exactly on the list that
  \<^verbatim>\<open>invalids()\<close> produces, and every entry of that list is the sentinel.
\<close>

theorem any_valid_iff_exists:
  "(any_valid g \<longleftrightarrow> (\<exists>k \<in> set all_topics. \<exists>v. at g k = Inr v \<and> v \<noteq> invalid_generation)) \<and>
   (\<not> any_valid g \<longleftrightarrow> g = invalids) \<and>
   (\<forall>k \<in> set all_topics. at invalids k = Inr invalid_generation)"
proof -
  have "any_valid g \<longleftrightarrow> (\<exists>k \<in> set all_topics. \<exists>v. at g k = Inr v \<and> v \<noteq> invalid_generation)"
    by (simp add: any_valid_fields all_topics_def at_enumerators)
  moreover have "\<not> any_valid g \<longleftrightarrow> g = invalids"
    by (cases g) (auto simp: any_valid_fields invalids_def generation_list_of_def)
  moreover have "\<forall>k \<in> set all_topics. at invalids k = Inr invalid_generation"
    by (simp add: all_topics_def at_enumerators invalids_def generation_list_of_def)
  ultimately show ?thesis
    by blast
qed

theorem any_valid_iff_exists_witness:
  "any_valid example_list \<and> example_list \<noteq> invalids \<and> \<not> any_valid invalids \<and>
   topic_sigchld \<in> set all_topics \<and> at invalids topic_sigchld = Inr invalid_generation"
proof -
  have k: "topic_sigchld \<in> set all_topics"
    by (simp add: all_topics_def)
  have ne: "example_list \<noteq> invalids"
    by (simp add: example_list_def invalids_def generation_list_of_def invalid_generation_def)
  have "any_valid example_list"
    using any_valid_iff_exists [of example_list] ne by blast
  moreover have "\<not> any_valid invalids"
    using any_valid_iff_exists [of invalids] by blast
  moreover have "at invalids topic_sigchld = Inr invalid_generation"
    using any_valid_iff_exists [of invalids] k by blast
  ultimately show ?thesis
    using k ne by simp
qed

subsection \<open>The default constructor\<close>

text \<open>
  C10: a default-constructed list holds 0, not the sentinel, for every topic:
  \<^verbatim>\<open>is_valid(k)\<close> is true for all three topics and \<^verbatim>\<open>any_valid()\<close> is true, so the list
  differs from \<^verbatim>\<open>invalids()\<close>; a topic stops being valid once the sentinel is written to
  it.
\<close>

theorem default_list_tracks_everything:
  "(\<forall>k \<in> set all_topics.
      at generation_list_default k = Inr 0 \<and> is_valid generation_list_default k = Inr True \<and>
      (\<exists>r. at_ref k = Inr r \<and>
           is_valid (assign generation_list_default r invalid_generation) k = Inr False)) \<and>
   (0 :: generation_t) \<noteq> invalid_generation \<and>
   any_valid generation_list_default \<and>
   generation_list_default \<noteq> invalids"
proof -
  have z: "(0 :: generation_t) \<noteq> invalid_generation"
    by (simp add: invalid_generation_def)
  have "\<forall>k \<in> set all_topics.
      at generation_list_default k = Inr 0 \<and> is_valid generation_list_default k = Inr True \<and>
      (\<exists>r. at_ref k = Inr r \<and>
           is_valid (assign generation_list_default r invalid_generation) k = Inr False)"
    using z
    by (simp add: all_topics_def is_valid_def at_enumerators at_ref_enumerators
        generation_list_default_def)
  moreover have "any_valid generation_list_default"
    using z by (simp add: any_valid_fields generation_list_default_def)
  moreover have "generation_list_default \<noteq> invalids"
    using z by (simp add: generation_list_default_def invalids_def generation_list_of_def)
  ultimately show ?thesis
    using z by blast
qed

theorem default_list_tracks_everything_witness:
  "topic_sigchld \<in> set all_topics \<and>
   at generation_list_default topic_sigchld = Inr 0 \<and>
   is_valid generation_list_default topic_sigchld = Inr True \<and>
   any_valid generation_list_default"
proof -
  have k: "topic_sigchld \<in> set all_topics"
    by (simp add: all_topics_def)
  with default_list_tracks_everything show ?thesis
    by blast
qed

section \<open>The monitor\<close>

subsection \<open>topic\_to\_bit\<close>

text \<open>
  C8: \<^verbatim>\<open>topic_to_bit\<close> gives each of the three topics the mask 1 shifted left by its
  discriminant, a single bit whose value \<open>2 ^ d\<close> is not cut by the narrowing to 8 bits
  (the discriminant is below 8); the masks are 1, 2 and 4, those of two distinct topics
  differ and have no bit in common, and the number of topics, 3, is at most the width 8.
\<close>

theorem topic_to_bit_masks:
  "(\<forall>t \<in> set all_topics. \<exists>b. topic_to_bit t = Inr b \<and> b = push_bit (unat t) 1 \<and>
        unat b = 2 ^ unat t \<and> unat t < LENGTH(8)) \<and>
   (\<forall>t \<in> set all_topics. \<forall>u \<in> set all_topics. t \<noteq> u \<longrightarrow>
        (\<exists>a b. topic_to_bit t = Inr a \<and> topic_to_bit u = Inr b \<and> a \<noteq> b \<and> a AND b = 0)) \<and>
   topic_to_bit topic_sighupint = Inr 1 \<and>
   topic_to_bit topic_sigchld = Inr 2 \<and>
   topic_to_bit topic_internal_exit = Inr 4 \<and>
   length all_topics = 3 \<and> length all_topics \<le> LENGTH(8)"
proof -
  have b: "topic_to_bit topic_sighupint = Inr 1" "topic_to_bit topic_sigchld = Inr 2"
    "topic_to_bit topic_internal_exit = Inr 4"
    by (simp_all add: topic_to_bit_def topic_sighupint_def topic_sigchld_def
        topic_internal_exit_def)
  have single: "\<forall>t \<in> set all_topics. \<exists>b. topic_to_bit t = Inr b \<and> b = push_bit (unat t) 1 \<and>
        unat b = 2 ^ unat t \<and> unat t < LENGTH(8)"
    by (simp add: all_topics_def b)
      (simp add: topic_sighupint_def topic_sigchld_def topic_internal_exit_def)
  have disjoint: "\<forall>t \<in> set all_topics. \<forall>u \<in> set all_topics. t \<noteq> u \<longrightarrow>
        (\<exists>a b. topic_to_bit t = Inr a \<and> topic_to_bit u = Inr b \<and> a \<noteq> b \<and> a AND b = 0)"
    by (simp add: all_topics_def b)
  have count: "length all_topics = 3" "length all_topics \<le> LENGTH(8)"
    by (simp_all add: all_topics_def)
  from single disjoint b count show ?thesis
    by blast
qed

theorem topic_to_bit_masks_witness:
  "topic_sigchld \<in> set all_topics \<and> topic_internal_exit \<in> set all_topics \<and>
   topic_sigchld \<noteq> topic_internal_exit \<and>
   topic_to_bit topic_sigchld = Inr 2 \<and> topic_to_bit topic_internal_exit = Inr 4 \<and>
   (2 :: topic_bitmask_t) AND 4 = 0"
proof -
  have k: "topic_sigchld \<in> set all_topics" "topic_internal_exit \<in> set all_topics"
    by (simp_all add: all_topics_def)
  have "(2 :: topic_bitmask_t) AND 4 = 0"
    by simp
  with topic_to_bit_masks k show ?thesis
    by (simp add: topics_distinct)
qed

subsection \<open>Generations seen by successive calls\<close>



















end
